theory Spec2Isabelle
  imports Main
begin

section \<open>Python values and exceptions\<close>

text \<open>
  The program is Python 2 code: \<^verbatim>\<open>dec_to_bin\<close> halves its argument with
  \<^verbatim>\<open>decimal /= 2\<close> and stops when it reaches 0, which only integer division does.
  Integers are therefore unbounded \<^typ>\<open>int\<close>, and \<^verbatim>\<open>/\<close> on them is floor
  division, which is what \<open>div\<close> on \<^typ>\<open>int\<close> computes. Every exception the
  interpreter can raise in the modelled code is a value of \<open>exn\<close>.
\<close>

datatype exn = ValueError | IndexError | KeyError | ZeroDivisionError | InvalidLexemeException

text \<open>
  \<^verbatim>\<open>xs[i]\<close> and \<^verbatim>\<open>xs[i] = v\<close> on a Python list: a negative index counts
  from the end, and an index outside \<open>-len .. len - 1\<close> raises IndexError.
\<close>

definition getitem :: "'a list \<Rightarrow> int \<Rightarrow> exn + 'a" where
  "getitem xs i =
     (if 0 \<le> i \<and> i < int (length xs) then Inr (xs ! nat i)
      else if i < 0 \<and> - int (length xs) \<le> i then Inr (xs ! nat (int (length xs) + i))
      else Inl IndexError)"

definition setitem :: "'a list \<Rightarrow> int \<Rightarrow> 'a \<Rightarrow> exn + 'a list" where
  "setitem xs i v =
     (if 0 \<le> i \<and> i < int (length xs) then Inr (xs[nat i := v])
      else if i < 0 \<and> - int (length xs) \<le> i then Inr (xs[nat (int (length xs) + i) := v])
      else Inl IndexError)"

section \<open>Bit strings\<close>

definition is_bit :: "char \<Rightarrow> bool" where
  "is_bit c = (c = CHR ''0'' \<or> c = CHR ''1'')"

definition bin_val :: "string \<Rightarrow> int" where
  "bin_val s = foldl (\<lambda>a c. 2 * a + (if c = CHR ''1'' then 1 else 0)) 0 s"

text \<open>
  \<^verbatim>\<open>int(s, 2)\<close> on the strings the encoder emits: a non-empty string of the
  characters 0 and 1 is read as an unsigned binary number. Any other string is a
  ValueError here; the signs, blanks and \<^verbatim>\<open>0b\<close> prefix that Python would also
  accept never occur in program memory, whose lines are built from opcode
  tables, register codes and \<^verbatim>\<open>dec_to_bin\<close> only.
\<close>

definition int2 :: "string \<Rightarrow> exn + int" where
  "int2 s = (if s \<noteq> [] \<and> list_all is_bit s then Inr (bin_val s) else Inl ValueError)"

section \<open>Compiler.py: numeric-to-binary conversion\<close>

text \<open>\<^verbatim>\<open>str(decimal % 2)\<close>: the remainder is 0 or 1.\<close>

definition str_bit :: "int \<Rightarrow> string" where
  "str_bit d = (if d = 0 then ''0'' else ''1'')"

text \<open>
  The while loop of \<^verbatim>\<open>dec_to_bin\<close>:
  \<^verbatim>\<open>while decimal > 0: string = str(decimal % 2) + string; decimal /= 2\<close>
\<close>

function dec_to_bin_loop :: "int \<Rightarrow> string \<Rightarrow> string" where
  "dec_to_bin_loop decimal string =
     (if decimal > 0 then dec_to_bin_loop (decimal div 2) (str_bit (decimal mod 2) @ string)
      else string)"
  by pat_completeness auto
termination
  by (relation "measure (\<lambda>(decimal, string). nat decimal)") auto

declare dec_to_bin_loop.simps [simp del]

definition dec_to_bin :: "int \<Rightarrow> nat \<Rightarrow> string" where
  "dec_to_bin decimal len =
     (let string = dec_to_bin_loop decimal ''''
      in if length string < len then replicate (len - length string) CHR ''0'' @ string
         else string)"

text \<open>
  The minimal unsigned binary representation of \<open>n\<close>, in the words of the
  specification: a bit string whose value is \<open>n\<close> and that has no leading zero
  (for 0 it is the empty string, which padding turns into zeros only).
\<close>

definition minimal_binary :: "int \<Rightarrow> string \<Rightarrow> bool" where
  "minimal_binary n m =
     (list_all is_bit m \<and> bin_val m = n \<and> (case m of [] \<Rightarrow> True | c # cs \<Rightarrow> c = CHR ''1''))"

section \<open>Compiler.py: the encoder\<close>

definition operators :: "string \<rightharpoonup> string" where
  "operators =
     map_of [(''MOV'', ''0000''), (''ADD'', ''0001''), (''SUB'', ''0010''),
             (''MUL'', ''0011''), (''DIV'', ''0100''), (''JMP'', ''0101'')]"

definition registers :: "string \<rightharpoonup> string" where
  "registers = map_of [(''AC'', ''1111111111111110''), (''ECX'', ''1111111111111111'')]"

text \<open>
  The symbol table \<^verbatim>\<open>self.variables\<close> is a dictionary from names to addresses.
  It is kept as an association list in insertion order; a name is only ever
  added when it is not a key yet, so keys stay distinct.
\<close>

type_synonym symtab = "(string \<times> int) list"

text \<open>
  \<^verbatim>\<open>Compiler.variable\<close>: the first name ever seen gets \<open>2**15\<close>, a later new name
  gets \<open>max(values) + 1\<close>, a known name keeps its address. The closing lookup
  \<^verbatim>\<open>self.variables[var]\<close> then always finds the name, so the result is the
  updated table and the binary text of the name's address.
\<close>

definition variable :: "symtab \<Rightarrow> string \<Rightarrow> symtab \<times> string" where
  "variable variables var =
     (if length variables = 0 then
        (variables @ [(var, 2 ^ 15)], dec_to_bin (2 ^ 15) 16)
      else
        (case map_of variables var of
           None \<Rightarrow>
             (let a = Max (set (map snd variables)) + 1
              in (variables @ [(var, a)], dec_to_bin a 16))
         | Some a \<Rightarrow> (variables, dec_to_bin a 16)))"

text \<open>
  \<^verbatim>\<open>int(operand2)\<close> on a token that holds no blank: an optional sign followed
  by at least one decimal digit; anything else raises ValueError.
\<close>

definition is_digit :: "char \<Rightarrow> bool" where
  "is_digit c = (c \<in> set ''0123456789'')"

definition dec_val :: "string \<Rightarrow> int" where
  "dec_val s = foldl (\<lambda>a c. 10 * a + (int (of_char c) - 48)) 0 s"

definition int10 :: "string \<Rightarrow> exn + int" where
  "int10 s =
     (let neg = (s \<noteq> [] \<and> hd s = CHR ''-'');
          ds = (if s \<noteq> [] \<and> (hd s = CHR ''-'' \<or> hd s = CHR ''+'') then tl s else s)
      in if ds \<noteq> [] \<and> list_all is_digit ds
         then Inr (if neg then - dec_val ds else dec_val ds)
         else Inl ValueError)"

definition startswith :: "string \<Rightarrow> string \<Rightarrow> bool" where
  "startswith s p = (take (length p) s = p)"

text \<open>The local variables of \<^verbatim>\<open>comp\<close> together with \<^verbatim>\<open>self.variables\<close>.\<close>

record comp_state =
  bytecode :: string
  instr_count :: int
  label :: int
  variables :: symtab

definition comp_init :: comp_state where
  "comp_init = \<lparr>bytecode = [], instr_count = 0, label = 0, variables = []\<rparr>"

text \<open>
  \<^verbatim>\<open>operand1\<close> of a line: a register mnemonic gives its code, anything else goes
  to \<^verbatim>\<open>variable\<close>.
\<close>

definition encode_operand1 :: "symtab \<Rightarrow> string \<Rightarrow> symtab \<times> string" where
  "encode_operand1 vars operand1 =
     (case registers operand1 of
        Some code \<Rightarrow> (vars, code)
      | None \<Rightarrow> variable vars operand1)"

text \<open>
  \<^verbatim>\<open>operand2\<close> of a line: a token that \<^verbatim>\<open>int\<close> accepts is a constant; when
  \<^verbatim>\<open>int\<close> raises, the bare \<^verbatim>\<open>except\<close> falls back to register, then variable.
\<close>

definition encode_operand2 :: "symtab \<Rightarrow> string \<Rightarrow> symtab \<times> string" where
  "encode_operand2 vars operand2 =
     (case int10 operand2 of
        Inr n \<Rightarrow> (vars, dec_to_bin n 16)
      | Inl e \<Rightarrow>
          (case registers operand2 of
             Some code \<Rightarrow> (vars, code)
           | None \<Rightarrow> variable vars operand2))"

text \<open>
  One iteration of the loop of \<^verbatim>\<open>comp\<close> on \<^verbatim>\<open>parts = line.split()\<close>.
  \<^verbatim>\<open>parts[0]\<close>, \<^verbatim>\<open>parts[1]\<close> and \<^verbatim>\<open>parts[2]\<close> raise IndexError when the
  line is too short, \<^verbatim>\<open>operators[operator]\<close> raises KeyError on an unknown
  mnemonic, in the order in which the source evaluates them.
\<close>

definition comp_line :: "comp_state \<Rightarrow> string list \<Rightarrow> exn + comp_state" where
  "comp_line st parts =
     (case parts of
        [] \<Rightarrow> Inl IndexError
      | operator # rest \<Rightarrow>
          if startswith operator ''label'' then Inr (st\<lparr>label := instr_count st\<rparr>)
          else if operator = ''JMP'' then
            (case operators operator of
               None \<Rightarrow> Inl KeyError
             | Some code \<Rightarrow>
                 Inr (st\<lparr>bytecode := bytecode st @ code @ dec_to_bin (label st) 16
                                       @ dec_to_bin 0 16 @ [CHR 0x0A],
                         instr_count := instr_count st + 1\<rparr>))
          else
            (case operators operator of
               None \<Rightarrow> Inl KeyError
             | Some code \<Rightarrow>
                 (case rest of
                    [] \<Rightarrow> Inl IndexError
                  | operand1 # rest' \<Rightarrow>
                      (case encode_operand1 (variables st) operand1 of
                         (vars1, enc1) \<Rightarrow>
                           (case rest' of
                              [] \<Rightarrow> Inl IndexError
                            | operand2 # rest'' \<Rightarrow>
                                (case encode_operand2 vars1 operand2 of
                                   (vars2, enc2) \<Rightarrow>
                                     Inr (st\<lparr>bytecode := bytecode st @ code @ enc1 @ enc2
                                                           @ [CHR 0x0A],
                                             instr_count := instr_count st + 1,
                                             variables := vars2\<rparr>)))))))"

text \<open>The \<^verbatim>\<open>for\<close> loop over the lines; the first exception ends the encoding.\<close>

fun comp_lines :: "comp_state \<Rightarrow> string list list \<Rightarrow> exn + comp_state" where
  "comp_lines st [] = Inr st"
| "comp_lines st (parts # ls) =
     (case comp_line st parts of
        Inl e \<Rightarrow> Inl e
      | Inr st' \<Rightarrow> comp_lines st' ls)"






section \<open>CPU.py: the virtual CPU\<close>

text \<open>
  The fields of a \<^verbatim>\<open>CPU\<close> object. \<^verbatim>\<open>ir\<close> is read by \<^verbatim>\<open>execute\<close> only after
  \<^verbatim>\<open>fetch\<close> has stored a line of program memory in it, so it is a string.
\<close>

record cpu =
  prog_memory :: "string list"
  data_memory :: "int list"
  ac :: int
  ecx :: int
  pc :: int
  ir :: string

text \<open>
  \<^verbatim>\<open>get_data\<close> and \<^verbatim>\<open>mov\<close> receive either an operand field of the instruction
  (a string) or, from the arithmetic operators, an integer; \<^verbatim>\<open>get_data\<close> tests
  \<^verbatim>\<open>type(operand) == str\<close>.
\<close>

datatype operand = Str string | Num int

definition get_data :: "cpu \<Rightarrow> operand \<Rightarrow> exn + int" where
  "get_data s operand =
     (case (case operand of Str b \<Rightarrow> int2 b | Num i \<Rightarrow> Inr i) of
        Inl e \<Rightarrow> Inl e
      | Inr ident \<Rightarrow>
          if ident < 32768 then Inr ident
          else if ident < 65534 then getitem (data_memory s) (ident - 32768)
          else if ident = 65534 then Inr (ac s)
          else Inr (ecx s))"

definition mov :: "cpu \<Rightarrow> string \<Rightarrow> operand \<Rightarrow> exn + cpu" where
  "mov s operand1 operand2 =
     (case int2 operand1 of
        Inl e \<Rightarrow> Inl e
      | Inr ident \<Rightarrow>
          if ident < 65534 then
            (let index = ident - 32768
             in if int (length (data_memory s)) < index + 1 then
                  (case get_data s operand2 of
                     Inl e \<Rightarrow> Inl e
                   | Inr v \<Rightarrow> Inr (s\<lparr>data_memory := data_memory s @ [v]\<rparr>))
                else
                  (case get_data s operand2 of
                     Inl e \<Rightarrow> Inl e
                   | Inr v \<Rightarrow>
                       (case setitem (data_memory s) index v of
                          Inl e \<Rightarrow> Inl e
                        | Inr m \<Rightarrow> Inr (s\<lparr>data_memory := m\<rparr>))))
          else if ident = 65534 then
            (case get_data s operand2 of
               Inl e \<Rightarrow> Inl e
             | Inr v \<Rightarrow> Inr (s\<lparr>ac := v\<rparr>))
          else
            (case get_data s operand2 of
               Inl e \<Rightarrow> Inl e
             | Inr v \<Rightarrow> Inr (s\<lparr>ecx := v\<rparr>)))"

text \<open>
  The four arithmetic operators resolve both operands, left one first, and
  hand the integer result to \<^verbatim>\<open>mov\<close> as its second operand.
\<close>

definition add :: "cpu \<Rightarrow> string \<Rightarrow> string \<Rightarrow> exn + cpu" where
  "add s operand1 operand2 =
     (case get_data s (Str operand1) of
        Inl e \<Rightarrow> Inl e
      | Inr a \<Rightarrow>
          (case get_data s (Str operand2) of
             Inl e \<Rightarrow> Inl e
           | Inr b \<Rightarrow> mov s operand1 (Num (a + b))))"

definition sub :: "cpu \<Rightarrow> string \<Rightarrow> string \<Rightarrow> exn + cpu" where
  "sub s operand1 operand2 =
     (case get_data s (Str operand1) of
        Inl e \<Rightarrow> Inl e
      | Inr a \<Rightarrow>
          (case get_data s (Str operand2) of
             Inl e \<Rightarrow> Inl e
           | Inr b \<Rightarrow> mov s operand1 (Num (a - b))))"

definition mul :: "cpu \<Rightarrow> string \<Rightarrow> string \<Rightarrow> exn + cpu" where
  "mul s operand1 operand2 =
     (case get_data s (Str operand1) of
        Inl e \<Rightarrow> Inl e
      | Inr a \<Rightarrow>
          (case get_data s (Str operand2) of
             Inl e \<Rightarrow> Inl e
           | Inr b \<Rightarrow> mov s operand1 (Num (a * b))))"

text \<open>\<^verbatim>\<open>/\<close> on two integers: floor division, ZeroDivisionError on a zero divisor.\<close>

definition div_cpu :: "cpu \<Rightarrow> string \<Rightarrow> string \<Rightarrow> exn + cpu" where
  "div_cpu s operand1 operand2 =
     (case get_data s (Str operand1) of
        Inl e \<Rightarrow> Inl e
      | Inr a \<Rightarrow>
          (case get_data s (Str operand2) of
             Inl e \<Rightarrow> Inl e
           | Inr b \<Rightarrow>
               if b = 0 then Inl ZeroDivisionError
               else mov s operand1 (Num (a div b))))"

definition jump :: "cpu \<Rightarrow> string \<Rightarrow> exn + cpu" where
  "jump s operand =
     (case int2 operand of
        Inl e \<Rightarrow> Inl e
      | Inr target \<Rightarrow> Inr (s\<lparr>pc := target\<rparr>))"

definition fetch :: "cpu \<Rightarrow> exn + cpu" where
  "fetch s =
     (case getitem (prog_memory s) (pc s) of
        Inl e \<Rightarrow> Inl e
      | Inr line \<Rightarrow> Inr (s\<lparr>ir := line\<rparr>))"

text \<open>\<^verbatim>\<open>self.pc += 1\<close> after an operator that returned normally.\<close>

definition next_pc :: "exn + cpu \<Rightarrow> exn + cpu" where
  "next_pc r = (case r of Inl e \<Rightarrow> Inl e | Inr s \<Rightarrow> Inr (s\<lparr>pc := pc s + 1\<rparr>))"

definition execute :: "cpu \<Rightarrow> exn + cpu" where
  "execute s =
     (let operation = take 4 (ir s);
          operand1 = take 16 (drop 4 (ir s));
          operand2 = drop 20 (ir s)
      in if operation = ''0000'' then next_pc (mov s operand1 (Str operand2))
         else if operation = ''0001'' then next_pc (add s operand1 operand2)
         else if operation = ''0010'' then next_pc (sub s operand1 operand2)
         else if operation = ''0011'' then next_pc (mul s operand1 operand2)
         else if operation = ''0100'' then next_pc (div_cpu s operand1 operand2)
         else if ecx s > 0 then jump s operand1
         else Inr (s\<lparr>pc := pc s + 1\<rparr>))"

text \<open>
  The final \<^verbatim>\<open>else\<close> of the comparison chain in \<^verbatim>\<open>execute\<close> is taken by every
  operation field that is none of the five move and arithmetic codes: the
  loop-exit code 0101, every unassigned pattern, and a field shorter than four
  characters.
\<close>

definition loop_exit_branch :: "string \<Rightarrow> bool" where
  "loop_exit_branch operation =
     (operation \<noteq> ''0000'' \<and> operation \<noteq> ''0001'' \<and> operation \<noteq> ''0010'' \<and>
      operation \<noteq> ''0011'' \<and> operation \<noteq> ''0100'')"

section \<open>Lex.py and TokenCodes.py: lexical classes\<close>











section \<open>Descriptions of an assembly listing\<close>

text \<open>
  The names that reach \<^verbatim>\<open>variable\<close> while a line is encoded, in call order:
  the first operand unless it is a register mnemonic, then the second operand
  unless \<^verbatim>\<open>int\<close> accepts it or it is a register mnemonic.
\<close>

definition var_tokens :: "string list \<Rightarrow> string list" where
  "var_tokens parts =
     (case parts of
        operator # operand1 # operand2 # rest \<Rightarrow>
          if startswith operator ''label'' \<or> operator = ''JMP'' then []
          else (if registers operand1 = None then [operand1] else []) @
               (if isl (int10 operand2) \<and> registers operand2 = None then [operand2] else [])
      | _ \<Rightarrow> [])"

text \<open>Names in the order of their first occurrence, after the names \<open>seen\<close>.\<close>

definition first_seen :: "string list \<Rightarrow> string list \<Rightarrow> string list" where
  "first_seen names seen = fold (\<lambda>v ks. if v \<in> set ks then ks else ks @ [v]) names seen"

text \<open>The table that gives the \<open>i\<close>-th name the address \<open>32768 + i\<close>.\<close>

definition sequential :: "string list \<Rightarrow> symtab" where
  "sequential names = zip names (map (\<lambda>i. 32768 + int i) [0..<length names])"

text \<open>
  A label marker is a line whose first token starts with \<^verbatim>\<open>label\<close>;
  \<open>emitted\<close> counts the other lines, each of which emits one instruction, and
  \<open>up_to_last_label\<close> is the listing cut after its last label marker (empty
  when it has none).
\<close>

definition is_label :: "string list \<Rightarrow> bool" where
  "is_label parts = (case parts of [] \<Rightarrow> False | operator # rest \<Rightarrow> startswith operator ''label'')"

definition emitted :: "string list list \<Rightarrow> int" where
  "emitted ls = int (length (filter (\<lambda>parts. \<not> is_label parts) ls))"

definition up_to_last_label :: "string list list \<Rightarrow> string list list" where
  "up_to_last_label ls = rev (dropWhile (\<lambda>parts. \<not> is_label parts) (rev ls))"

text \<open>
  The lines on which \<^verbatim>\<open>comp\<close> raises: a line without a token, a first token
  that neither starts with \<^verbatim>\<open>label\<close> nor is a key of \<^verbatim>\<open>operators\<close>, and an
  operator other than \<^verbatim>\<open>JMP\<close> with fewer than two operand tokens.
\<close>

definition line_fails :: "string list \<Rightarrow> bool" where
  "line_fails parts =
     (case parts of
        [] \<Rightarrow> True
      | operator # rest \<Rightarrow>
          \<not> startswith operator ''label'' \<and>
          (operators operator = None \<or> (operator \<noteq> ''JMP'' \<and> length rest < 2)))"

text \<open>
  The exception a line raises in \<^verbatim>\<open>comp\<close>, if any: IndexError from \<^verbatim>\<open>parts[0]\<close>
  on a line without a token, KeyError from \<^verbatim>\<open>operators[operator]\<close>, IndexError
  from \<^verbatim>\<open>parts[1]\<close> or \<^verbatim>\<open>parts[2]\<close>; and the exception of the first line of a
  listing that raises one.
\<close>

definition line_error :: "string list \<Rightarrow> exn option" where
  "line_error parts =
     (case parts of
        [] \<Rightarrow> Some IndexError
      | operator # rest \<Rightarrow>
          if startswith operator ''label'' then None
          else if operators operator = None then Some KeyError
          else if operator \<noteq> ''JMP'' \<and> length rest < 2 then Some IndexError
          else None)"


section \<open>Facts about bit strings and the conversion loop\<close>

lemma bin_val_Nil [simp]: "bin_val [] = 0" by (simp add: bin_val_def)

lemma bin_val_snoc [simp]: "bin_val (xs @ [c]) = 2 * bin_val xs + (if c = CHR ''1'' then 1 else 0)"
  by (simp add: bin_val_def)

lemma bin_val_append: "bin_val (xs @ ys) = bin_val xs * 2 ^ length ys + bin_val ys"
  by (induction ys rule: rev_induct) (simp_all add: algebra_simps flip: append_assoc)

lemma bin_val_Cons: "bin_val (c # cs) = (if c = CHR ''1'' then 1 else 0) * 2 ^ length cs + bin_val cs"
  using bin_val_append [of "[c]" cs] by (simp add: bin_val_def)

lemma bin_val_nonneg: "0 \<le> bin_val xs"
  by (induction xs rule: rev_induct) simp_all

lemma bin_val_less: "bin_val xs < 2 ^ length xs"
  by (induction xs rule: rev_induct) simp_all

lemma bin_val_replicate0 [simp]: "bin_val (replicate k CHR ''0'' @ xs) = bin_val xs"
  by (induction k) (simp_all add: bin_val_Cons)

lemma str_bit_bits: "list_all is_bit (str_bit d)"
  by (simp add: str_bit_def is_bit_def)

lemma loop_acc: "dec_to_bin_loop n acc = dec_to_bin_loop n [] @ acc"
proof (induction "nat n" arbitrary: n acc rule: less_induct)
  case less
  show ?case
  proof (cases "n > 0")
    case True
    then have lt: "nat (n div 2) < nat n" by simp
    have "dec_to_bin_loop n acc = dec_to_bin_loop (n div 2) (str_bit (n mod 2) @ acc)"
      using True by (simp add: dec_to_bin_loop.simps [of n])
    also have "\<dots> = dec_to_bin_loop (n div 2) [] @ str_bit (n mod 2) @ acc"
      using less [OF lt] .
    also have "\<dots> = dec_to_bin_loop (n div 2) (str_bit (n mod 2)) @ acc"
      using less [OF lt, of "str_bit (n mod 2)"] by simp
    also have "dec_to_bin_loop (n div 2) (str_bit (n mod 2)) = dec_to_bin_loop n []"
      using True by (simp add: dec_to_bin_loop.simps [of n])
    finally show ?thesis .
  next
    case False
    then show ?thesis by (simp add: dec_to_bin_loop.simps [of n])
  qed
qed

lemma loop_nonpos: "n \<le> 0 \<Longrightarrow> dec_to_bin_loop n acc = acc"
  by (simp add: dec_to_bin_loop.simps [of n])

lemma loop_pos: "0 < n \<Longrightarrow> dec_to_bin_loop n [] = dec_to_bin_loop (n div 2) [] @ str_bit (n mod 2)"
  using loop_acc [of "n div 2" "str_bit (n mod 2)"] by (simp add: dec_to_bin_loop.simps [of n "[]"])

lemma loop_bits: "list_all is_bit (dec_to_bin_loop n [])"
proof (induction "nat n" arbitrary: n rule: less_induct)
  case less
  show ?case
  proof (cases "n > 0")
    case True
    then have "nat (n div 2) < nat n" by simp
    from less [OF this] show ?thesis using True by (simp add: loop_pos str_bit_bits)
  next
    case False
    then show ?thesis by (simp add: loop_nonpos)
  qed
qed

lemma loop_val: "0 \<le> n \<Longrightarrow> bin_val (dec_to_bin_loop n []) = n"
proof (induction "nat n" arbitrary: n rule: less_induct)
  case less
  show ?case
  proof (cases "n > 0")
    case True
    then have "nat (n div 2) < nat n" by simp
    from less(1) [OF this] have "bin_val (dec_to_bin_loop (n div 2) []) = n div 2"
      using True by simp
    then show ?thesis using True by (simp add: loop_pos str_bit_def) presburger
  next
    case False
    with less(2) show ?thesis by (simp add: loop_nonpos)
  qed
qed

lemma loop_hd: "0 < n \<Longrightarrow> \<exists>cs. dec_to_bin_loop n [] = CHR ''1'' # cs"
proof (induction "nat n" arbitrary: n rule: less_induct)
  case less
  show ?case
  proof (cases "n div 2 > 0")
    case True
    then have "nat (n div 2) < nat n" by linarith
    from less(1) [OF this True] show ?thesis using less(2) by (auto simp: loop_pos [of n])
  next
    case False
    with less(2) have "n = 1" by simp
    then show ?thesis by (simp add: loop_pos loop_nonpos str_bit_def)
  qed
qed

lemma loop_minimal: "0 \<le> n \<Longrightarrow> minimal_binary n (dec_to_bin_loop n [])"
proof (cases "n = 0")
  case True
  then show ?thesis by (simp add: minimal_binary_def loop_nonpos)
next
  case False
  assume "0 \<le> n"
  with False have "0 < n" by simp
  from loop_hd [OF this] obtain cs where "dec_to_bin_loop n [] = CHR ''1'' # cs" ..
  then show ?thesis using loop_bits [of n] loop_val [OF \<open>0 \<le> n\<close>]
    by (simp add: minimal_binary_def)
qed

lemma minimal_unique: "minimal_binary n m \<Longrightarrow> m = dec_to_bin_loop n []"
proof (induction m arbitrary: n rule: rev_induct)
  case Nil
  then show ?case by (simp add: minimal_binary_def loop_nonpos)
next
  case (snoc c xs)
  from snoc.prems have bits: "list_all is_bit xs" "is_bit c" and v: "n = 2 * bin_val xs + (if c = CHR ''1'' then 1 else 0)"
    and h: "hd (xs @ [c]) = CHR ''1''"
    by (auto simp: minimal_binary_def split: list.splits)
  have minxs: "minimal_binary (bin_val xs) xs"
    using bits h by (cases xs) (simp_all add: minimal_binary_def)
  have pos: "0 < n"
  proof (cases xs)
    case Nil
    with h v show ?thesis by simp
  next
    case (Cons y ys)
    with h have "y = CHR ''1''" by simp
    with Cons have "0 < bin_val xs" using bin_val_nonneg [of ys] by (simp add: bin_val_Cons add_pos_nonneg)
    with v show ?thesis by simp
  qed
  have d: "n div 2 = bin_val xs" using v by simp
  have r: "str_bit (n mod 2) = [c]" using v bits(2) by (auto simp: str_bit_def is_bit_def)
  show ?case using snoc.IH [OF minxs] by (simp add: loop_pos [OF pos] d r)
qed

lemma minimal_length: "minimal_binary n m \<Longrightarrow> (length m \<le> k) = (n < 2 ^ k)"
proof
  assume m: "minimal_binary n m" and "length m \<le> k"
  have "bin_val m < 2 ^ length m" by (rule bin_val_less)
  also have "(2::int) ^ length m \<le> 2 ^ k" using \<open>length m \<le> k\<close> by simp
  finally show "n < 2 ^ k" using m by (simp add: minimal_binary_def)
next
  assume m: "minimal_binary n m" and lt: "n < 2 ^ k"
  show "length m \<le> k"
  proof (cases m)
    case Nil
    then show ?thesis by simp
  next
    case (Cons c cs)
    with m have "n = 2 ^ length cs + bin_val cs" by (auto simp: minimal_binary_def bin_val_Cons)
    with bin_val_nonneg [of cs] lt have "(2::int) ^ length cs < 2 ^ k" by linarith
    then have "length cs < k" by simp
    with Cons show ?thesis by simp
  qed
qed


text \<open>
  C4. For every non-negative integer \<open>n\<close>, \<^verbatim>\<open>dec_to_bin(n, 16)\<close> is the minimal
  unsigned binary representation of \<open>n\<close>, left-padded with zero bits to exactly
  16 characters when \<open>n\<close> fits in 16 bits; when it does not fit, the result is
  the minimal representation itself, longer than 16 characters, neither
  truncated nor rejected. The minimal representation exists (the conversion
  with width 0 computes it) and is the only bit string without a leading zero
  whose value is \<open>n\<close>.
\<close>

theorem dec_to_bin_pads_minimal:
  "0 \<le> n \<Longrightarrow>
     minimal_binary n (dec_to_bin n 0) \<and>
     (\<forall>m. minimal_binary n m \<longrightarrow>
        dec_to_bin n 16 = (if n < 65536 then replicate (16 - length m) CHR ''0'' @ m else m) \<and>
        (length m \<le> 16) = (n < 65536)) \<and>
     list_all is_bit (dec_to_bin n 16) \<and>
     bin_val (dec_to_bin n 16) = n \<and>
     (n < 65536 \<longrightarrow> length (dec_to_bin n 16) = 16) \<and>
     (65536 \<le> n \<longrightarrow> 16 < length (dec_to_bin n 16))"
proof -
  assume n: "0 \<le> n"
  let ?m = "dec_to_bin_loop n []"
  have min: "minimal_binary n ?m" using n by (rule loop_minimal)
  have len: "(length ?m \<le> 16) = (n < 65536)" using minimal_length [OF min, of 16] by simp
  have d0: "dec_to_bin n 0 = ?m" by (simp add: dec_to_bin_def Let_def)
  have d16: "dec_to_bin n 16 = (if n < 65536 then replicate (16 - length ?m) CHR ''0'' @ ?m else ?m)"
  proof (cases "length ?m < 16")
    case True
    with len show ?thesis by (simp add: dec_to_bin_def Let_def)
  next
    case False
    show ?thesis
    proof (cases "n < 65536")
      case True
      with len False have "length ?m = 16" by simp
      with True show ?thesis by (simp add: dec_to_bin_def Let_def)
    next
      case False
      with len show ?thesis by (simp add: dec_to_bin_def Let_def)
    qed
  qed
  have uniq: "\<And>m. minimal_binary n m \<Longrightarrow> m = ?m" by (rule minimal_unique)
  have z: "list_all is_bit (replicate (16 - length ?m) CHR ''0'')"
    by (simp add: list_all_iff is_bit_def)
  have bits: "list_all is_bit (dec_to_bin n 16)"
    unfolding d16 using loop_bits [of n] z by (cases "n < 65536") simp_all
  have val: "bin_val (dec_to_bin n 16) = n"
    unfolding d16 using loop_val [OF n] by (cases "n < 65536") simp_all
  have short: "n < 65536 \<longrightarrow> length (dec_to_bin n 16) = 16"
    unfolding d16 using len by (cases "n < 65536") simp_all
  have long: "65536 \<le> n \<longrightarrow> 16 < length (dec_to_bin n 16)"
    unfolding d16 using len by (cases "n < 65536") simp_all
  have all: "\<forall>m. minimal_binary n m \<longrightarrow>
        dec_to_bin n 16 = (if n < 65536 then replicate (16 - length m) CHR ''0'' @ m else m) \<and>
        (length m \<le> 16) = (n < 65536)"
  proof (intro allI impI)
    fix m assume "minimal_binary n m"
    then have "m = ?m" by (rule uniq)
    then show "dec_to_bin n 16 = (if n < 65536 then replicate (16 - length m) CHR ''0'' @ m else m) \<and>
        (length m \<le> 16) = (n < 65536)"
      using d16 len by blast
  qed
  from min have m0: "minimal_binary n (dec_to_bin n 0)" by (simp only: d0)
  from m0 all bits val short long show ?thesis by (intro conjI)
qed


theorem dec_to_bin_pads_minimal_witness:
  "(0::int) \<le> 5 \<and> minimal_binary 5 ''101'' \<and> dec_to_bin 5 16 = ''0000000000000101'' \<and>
   length (dec_to_bin 5 16) = 16 \<and> 16 < length (dec_to_bin 70000 16)"
proof -
  have m: "minimal_binary 5 ''101''"
    by (simp add: minimal_binary_def is_bit_def bin_val_def)
  have "dec_to_bin 5 16 = replicate (16 - length ''101'') CHR ''0'' @ ''101''"
    using dec_to_bin_pads_minimal [of 5] m by simp
  moreover have "16 < length (dec_to_bin 70000 16)"
    using dec_to_bin_pads_minimal [of 70000] by simp
  ultimately show ?thesis using m by (simp add: numeral_eq_Suc)
qed

section \<open>The virtual CPU\<close>

lemmas bits_eval = int2_def is_bit_def bin_val_def

lemma int2_nonneg: "int2 b = Inr v \<Longrightarrow> 0 \<le> v"
  by (auto simp: int2_def bin_val_nonneg split: if_splits)

lemma mov_pc: "mov s operand1 operand2 = Inr s' \<Longrightarrow> pc s' = pc s"
  by (auto simp: mov_def Let_def split: sum.splits if_splits)

lemma add_pc: "add s operand1 operand2 = Inr s' \<Longrightarrow> pc s' = pc s"
  by (auto simp: add_def split: sum.splits dest: mov_pc)

lemma sub_pc: "sub s operand1 operand2 = Inr s' \<Longrightarrow> pc s' = pc s"
  by (auto simp: sub_def split: sum.splits dest: mov_pc)

lemma mul_pc: "mul s operand1 operand2 = Inr s' \<Longrightarrow> pc s' = pc s"
  by (auto simp: mul_def split: sum.splits dest: mov_pc)

lemma div_cpu_pc: "div_cpu s operand1 operand2 = Inr s' \<Longrightarrow> pc s' = pc s"
  by (auto simp: div_cpu_def split: sum.splits if_splits dest: mov_pc)

lemma next_pc_Inr: "next_pc r = Inr s' \<Longrightarrow> \<exists>s1. r = Inr s1 \<and> s' = s1\<lparr>pc := pc s1 + 1\<rparr>"
  by (auto simp: next_pc_def split: sum.splits)

lemma execute_default:
  "loop_exit_branch (take 4 (ir s)) \<Longrightarrow>
   execute s = (if ecx s > 0 then jump s (take 16 (drop 4 (ir s))) else Inr (s\<lparr>pc := pc s + 1\<rparr>))"
  by (simp add: execute_def loop_exit_branch_def Let_def)

lemma execute_five:
  "\<not> loop_exit_branch (take 4 (ir s)) \<Longrightarrow> execute s = Inr s' \<Longrightarrow> pc s' = pc s + 1"
  unfolding execute_def loop_exit_branch_def Let_def
  by (auto split: if_splits dest!: next_pc_Inr dest: mov_pc add_pc sub_pc mul_pc div_cpu_pc)

lemma mov_source_cong:
  "get_data s x = get_data s y \<Longrightarrow> mov s operand1 x = mov s operand1 y"
  by (auto simp: mov_def Let_def split: sum.splits)

lemma get_data_Str_dec_to_bin:
  assumes "0 \<le> r"
  shows "get_data s (Str (dec_to_bin r 16)) = get_data s (Num r)"
proof -
  have n: "dec_to_bin r 16 \<noteq> []"
    by (auto simp: dec_to_bin_def Let_def)
  have b: "list_all is_bit (dec_to_bin r 16)"
    using loop_bits [of r] by (auto simp: dec_to_bin_def Let_def list_all_iff is_bit_def)
  have v: "bin_val (dec_to_bin r 16) = r"
    using loop_val [OF assms] by (simp add: dec_to_bin_def Let_def)
  from n b v have "int2 (dec_to_bin r 16) = Inr r" by (simp add: int2_def)
  then show ?thesis by (simp add: get_data_def)
qed

text \<open>
  C5. Address resolution on an operand value \<open>v\<close>: below 32768 it is the
  literal \<open>v\<close>; from 32768 to 65533 it is the data-memory slot at index
  \<open>v - 32768\<close> (IndexError when data memory has no such slot); 65534 is the
  accumulator; every other value is the loop counter. An operand field that
  reads as \<open>v\<close> resolves as \<open>v\<close> does.
\<close>

theorem get_data_resolution:
  "get_data s (Num v) =
     (if v < 32768 then Inr v
      else if v \<le> 65533 then
        (if v - 32768 < int (length (data_memory s))
         then Inr (data_memory s ! nat (v - 32768)) else Inl IndexError)
      else if v = 65534 then Inr (ac s)
      else Inr (ecx s)) \<and>
   (\<forall>b. int2 b = Inr v \<longrightarrow> get_data s (Str b) = get_data s (Num v))"
  by (auto simp: get_data_def getitem_def)

theorem get_data_resolution_witness:
  "get_data \<lparr>prog_memory = [], data_memory = [17, 19], ac = 5, ecx = 3, pc = 0, ir = []\<rparr>
     (Str ''1000000000000001'') = Inr 19 \<and>
   get_data \<lparr>prog_memory = [], data_memory = [17, 19], ac = 5, ecx = 3, pc = 0, ir = []\<rparr>
     (Str ''1111111111111110'') = Inr 5"
proof
  let ?s = "\<lparr>prog_memory = [], data_memory = [17, 19], ac = 5, ecx = 3, pc = 0, ir = []\<rparr>"
  have "int2 ''1000000000000001'' = Inr 32769" by (simp add: bits_eval)
  with get_data_resolution [of ?s 32769]
  have "get_data ?s (Str ''1000000000000001'') = get_data ?s (Num 32769)" by blast
  also have "\<dots> = Inr 19" using get_data_resolution [of ?s 32769] by simp
  finally show "get_data ?s (Str ''1000000000000001'') = Inr 19" .
next
  let ?s = "\<lparr>prog_memory = [], data_memory = [17, 19], ac = 5, ecx = 3, pc = 0, ir = []\<rparr>"
  have "int2 ''1111111111111110'' = Inr 65534" by (simp add: bits_eval)
  with get_data_resolution [of ?s 65534]
  have "get_data ?s (Str ''1111111111111110'') = get_data ?s (Num 65534)" by blast
  also have "\<dots> = Inr 5" using get_data_resolution [of ?s 65534] by simp
  finally show "get_data ?s (Str ''1111111111111110'') = Inr 5" .
qed

text \<open>
  C2. After an executed instruction whose operation is one of the five move
  and arithmetic codes the program counter is one more than before. For any
  other operation field: with a strictly positive loop counter the program
  counter becomes the encoded target (the first operand field read as binary),
  and such an instruction executes whenever that field is readable; with a
  loop counter of zero or less the instruction executes and the program
  counter advances by one.
\<close>

theorem execute_program_counter:
  "(\<not> loop_exit_branch (take 4 (ir s)) \<longrightarrow> (\<forall>s'. execute s = Inr s' \<longrightarrow> pc s' = pc s + 1)) \<and>
   (loop_exit_branch (take 4 (ir s)) \<and> 0 < ecx s \<longrightarrow>
      (\<forall>s'. execute s = Inr s' \<longrightarrow> int2 (take 16 (drop 4 (ir s))) = Inr (pc s')) \<and>
      (\<forall>target. int2 (take 16 (drop 4 (ir s))) = Inr target \<longrightarrow>
         (\<exists>s'. execute s = Inr s' \<and> pc s' = target))) \<and>
   (loop_exit_branch (take 4 (ir s)) \<and> ecx s \<le> 0 \<longrightarrow>
      (\<exists>s'. execute s = Inr s' \<and> pc s' = pc s + 1))"
proof (intro conjI impI allI)
  fix s' assume "\<not> loop_exit_branch (take 4 (ir s))" "execute s = Inr s'"
  then show "pc s' = pc s + 1" by (rule execute_five)
next
  fix s' assume "loop_exit_branch (take 4 (ir s)) \<and> 0 < ecx s" "execute s = Inr s'"
  then show "int2 (take 16 (drop 4 (ir s))) = Inr (pc s')"
    by (auto simp: execute_default jump_def split: sum.splits)
next
  fix target assume "loop_exit_branch (take 4 (ir s)) \<and> 0 < ecx s"
    "int2 (take 16 (drop 4 (ir s))) = Inr target"
  then show "\<exists>s'. execute s = Inr s' \<and> pc s' = target"
    by (simp add: execute_default jump_def)
next
  assume "loop_exit_branch (take 4 (ir s)) \<and> ecx s \<le> 0"
  then show "\<exists>s'. execute s = Inr s' \<and> pc s' = pc s + 1"
    by (simp add: execute_default)
qed

theorem execute_program_counter_witness:
  "(\<exists>s'. execute \<lparr>prog_memory = [], data_memory = [], ac = 0, ecx = 0, pc = 0,
                    ir = ''000010000000000000000000000000010001''\<rparr> = Inr s' \<and> pc s' = 0 + 1) \<and>
   (\<exists>s'. execute \<lparr>prog_memory = [], data_memory = [], ac = 0, ecx = 3, pc = 7,
                    ir = ''010100000000000001000000000000000000''\<rparr> = Inr s' \<and> pc s' = 4) \<and>
   (\<exists>s'. execute \<lparr>prog_memory = [], data_memory = [], ac = 0, ecx = 0, pc = 7,
                    ir = ''010100000000000001000000000000000000''\<rparr> = Inr s' \<and> pc s' = 7 + 1)"
proof (intro conjI)
  let ?m = "\<lparr>prog_memory = [], data_memory = [], ac = 0, ecx = 0, pc = 0,
             ir = ''000010000000000000000000000000010001''\<rparr>"
  have five: "\<not> loop_exit_branch (take 4 (ir ?m))" by (simp add: loop_exit_branch_def)
  have "\<exists>s'. execute ?m = Inr s'"
    by (simp add: execute_def next_pc_def mov_def get_data_def bits_eval)
  then obtain s' where ex: "execute ?m = Inr s'" ..
  with five execute_program_counter [of ?m] have "pc s' = pc ?m + 1" by blast
  with ex show "\<exists>s'. execute ?m = Inr s' \<and> pc s' = 0 + 1" by simp
next
  let ?j = "\<lparr>prog_memory = [], data_memory = [], ac = 0, ecx = 3, pc = 7,
             ir = ''010100000000000001000000000000000000''\<rparr>"
  have "loop_exit_branch (take 4 (ir ?j)) \<and> 0 < ecx ?j" by (simp add: loop_exit_branch_def)
  moreover have "int2 (take 16 (drop 4 (ir ?j))) = Inr 4" by (simp add: bits_eval)
  ultimately show "\<exists>s'. execute ?j = Inr s' \<and> pc s' = 4"
    using execute_program_counter [of ?j] by blast
next
  let ?z = "\<lparr>prog_memory = [], data_memory = [], ac = 0, ecx = 0, pc = 7,
             ir = ''010100000000000001000000000000000000''\<rparr>"
  have "loop_exit_branch (take 4 (ir ?z)) \<and> ecx ?z \<le> 0" by (simp add: loop_exit_branch_def)
  then have "\<exists>s'. execute ?z = Inr s' \<and> pc s' = pc ?z + 1"
    using execute_program_counter [of ?z] by blast
  then show "\<exists>s'. execute ?z = Inr s' \<and> pc s' = 7 + 1" by simp
qed

text \<open>
  C10. An instruction taking the loop-exit branch changes the program counter
  only: it becomes the target when the loop counter is positive and advances
  by one otherwise, and accumulator, loop counter, data memory, program memory
  and instruction register are as before.
\<close>

theorem loop_exit_frame:
  "loop_exit_branch (take 4 (ir s)) \<Longrightarrow>
     (0 < ecx s \<longrightarrow>
        (\<forall>target. int2 (take 16 (drop 4 (ir s))) = Inr target \<longrightarrow>
           execute s = Inr (s\<lparr>pc := target\<rparr>))) \<and>
     (ecx s \<le> 0 \<longrightarrow> execute s = Inr (s\<lparr>pc := pc s + 1\<rparr>)) \<and>
     (\<forall>s'. execute s = Inr s' \<longrightarrow>
        ac s' = ac s \<and> ecx s' = ecx s \<and> data_memory s' = data_memory s \<and>
        prog_memory s' = prog_memory s \<and> ir s' = ir s)"
  by (auto simp: execute_default jump_def split: sum.splits if_splits)

theorem loop_exit_frame_witness:
  "execute \<lparr>prog_memory = [], data_memory = [17, 19, 0], ac = 5, ecx = 3, pc = 7,
             ir = ''010100000000000001000000000000000000''\<rparr>
     = Inr \<lparr>prog_memory = [], data_memory = [17, 19, 0], ac = 5, ecx = 3, pc = 4,
             ir = ''010100000000000001000000000000000000''\<rparr> \<and>
   execute \<lparr>prog_memory = [], data_memory = [17, 19, 0], ac = 5, ecx = 0, pc = 7,
             ir = ''010100000000000001000000000000000000''\<rparr>
     = Inr \<lparr>prog_memory = [], data_memory = [17, 19, 0], ac = 5, ecx = 0, pc = 8,
             ir = ''010100000000000001000000000000000000''\<rparr>"
proof
  let ?j = "\<lparr>prog_memory = [], data_memory = [17, 19, 0], ac = 5, ecx = 3, pc = 7,
             ir = ''010100000000000001000000000000000000''\<rparr>"
  have b: "loop_exit_branch (take 4 (ir ?j))" by (simp add: loop_exit_branch_def)
  have t: "int2 (take 16 (drop 4 (ir ?j))) = Inr 4" by (simp add: bits_eval)
  have "0 < ecx ?j" by simp
  with loop_exit_frame [OF b] t have "execute ?j = Inr (?j\<lparr>pc := 4\<rparr>)" by blast
  then show "execute ?j = Inr \<lparr>prog_memory = [], data_memory = [17, 19, 0], ac = 5, ecx = 3, pc = 4,
             ir = ''010100000000000001000000000000000000''\<rparr>" by simp
next
  let ?z = "\<lparr>prog_memory = [], data_memory = [17, 19, 0], ac = 5, ecx = 0, pc = 7,
             ir = ''010100000000000001000000000000000000''\<rparr>"
  have b: "loop_exit_branch (take 4 (ir ?z))" by (simp add: loop_exit_branch_def)
  have "ecx ?z \<le> 0" by simp
  with loop_exit_frame [OF b] have "execute ?z = Inr (?z\<lparr>pc := pc ?z + 1\<rparr>)" by blast
  then show "execute ?z = Inr \<lparr>prog_memory = [], data_memory = [17, 19, 0], ac = 5, ecx = 0, pc = 8,
             ir = ''010100000000000001000000000000000000''\<rparr>" by simp
qed

lemma get_data_missing_slot:
  assumes "int2 operand1 = Inr ident" and "32768 \<le> ident" and "ident < 65534"
    and "int (length (data_memory s)) \<le> ident - 32768"
  shows "get_data s (Str operand1) = Inl IndexError"
  using assms by (simp add: get_data_def getitem_def)

text \<open>
  Against C3 as stated: with empty data memory a move to address 32770, whose
  slot index 2 is beyond the length 0, raises nothing and appends the value;
  and an add whose destination is address 32768, whose slot index 0 equals the
  length 0, does not append but raises IndexError.
\<close>

theorem mov_beyond_length_appends:
  "int2 ''1000000000000010'' = Inr (32768 + 2) \<and>
   int (length (data_memory \<lparr>prog_memory = [], data_memory = [], ac = 0, ecx = 0, pc = 0, ir = []\<rparr>)) < 2 \<and>
   mov \<lparr>prog_memory = [], data_memory = [], ac = 0, ecx = 0, pc = 0, ir = []\<rparr>
       ''1000000000000010'' (Str ''0000000000000011'')
     = Inr \<lparr>prog_memory = [], data_memory = [3], ac = 0, ecx = 0, pc = 0, ir = []\<rparr> \<and>
   int2 ''1000000000000000'' = Inr (32768 + 0) \<and>
   add \<lparr>prog_memory = [], data_memory = [], ac = 0, ecx = 0, pc = 0, ir = []\<rparr>
       ''1000000000000000'' ''0000000000000011''
     = Inl IndexError"
  by (simp add: add_def mov_def get_data_def getitem_def bits_eval)

text \<open>
  C3, amended. For a move whose destination is in the variable range and
  whose computed slot index is equal to or greater than the current
  data-memory length: when the source resolves to a value, the write succeeds
  by appending that value as the new last slot, and no out-of-bounds error is
  raised; when the source does not resolve, its error is raised and nothing is
  written. An add, subtract, multiply or divide instruction with such a
  destination never reaches its move: it reads the destination first and
  raises IndexError.
\<close>

theorem mov_variable_append:
  assumes "int2 operand1 = Inr ident" and "32768 \<le> ident" and "ident < 65534"
    and "int (length (data_memory s)) \<le> ident - 32768"
  shows "(\<forall>v. get_data s operand2 = Inr v \<longrightarrow>
            mov s operand1 operand2 = Inr (s\<lparr>data_memory := data_memory s @ [v]\<rparr>)) \<and>
         (\<forall>e. get_data s operand2 = Inl e \<longrightarrow> mov s operand1 operand2 = Inl e) \<and>
         add s operand1 src = Inl IndexError \<and>
         sub s operand1 src = Inl IndexError \<and>
         mul s operand1 src = Inl IndexError \<and>
         div_cpu s operand1 src = Inl IndexError"
proof (intro conjI allI impI)
  fix v assume "get_data s operand2 = Inr v"
  with assms show "mov s operand1 operand2 = Inr (s\<lparr>data_memory := data_memory s @ [v]\<rparr>)"
    by (simp add: mov_def Let_def)
next
  fix e assume "get_data s operand2 = Inl e"
  with assms show "mov s operand1 operand2 = Inl e"
    by (simp add: mov_def Let_def)
next
  note g = get_data_missing_slot [OF assms]
  show "add s operand1 src = Inl IndexError" by (simp add: add_def g)
  show "sub s operand1 src = Inl IndexError" by (simp add: sub_def g)
  show "mul s operand1 src = Inl IndexError" by (simp add: mul_def g)
  show "div_cpu s operand1 src = Inl IndexError" by (simp add: div_cpu_def g)
qed

theorem mov_variable_append_witness:
  "mov \<lparr>prog_memory = [], data_memory = [17], ac = 0, ecx = 0, pc = 0, ir = []\<rparr>
       ''1000000000000001'' (Str ''0000000000010011'')
     = Inr \<lparr>prog_memory = [], data_memory = [17, 19], ac = 0, ecx = 0, pc = 0, ir = []\<rparr> \<and>
   mov \<lparr>prog_memory = [], data_memory = [17], ac = 0, ecx = 0, pc = 0, ir = []\<rparr>
       ''1000000000000101'' (Str ''0000000000010011'')
     = Inr \<lparr>prog_memory = [], data_memory = [17, 19], ac = 0, ecx = 0, pc = 0, ir = []\<rparr> \<and>
   mov \<lparr>prog_memory = [], data_memory = [17], ac = 0, ecx = 0, pc = 0, ir = []\<rparr>
       ''1000000000000001'' (Str ''1000000000000001'')
     = Inl IndexError \<and>
   add \<lparr>prog_memory = [], data_memory = [17], ac = 0, ecx = 0, pc = 0, ir = []\<rparr>
       ''1000000000000001'' ''0000000000010011''
     = Inl IndexError \<and>
   div_cpu \<lparr>prog_memory = [], data_memory = [17], ac = 0, ecx = 0, pc = 0, ir = []\<rparr>
       ''1000000000000101'' ''0000000000010011''
     = Inl IndexError"
proof -
  let ?s = "\<lparr>prog_memory = [], data_memory = [17], ac = 0, ecx = 0, pc = 0, ir = []\<rparr>"
  have a: "int2 ''1000000000000001'' = Inr 32769" by (simp add: bits_eval)
  have b: "int2 ''1000000000000101'' = Inr 32773" by (simp add: bits_eval)
  have g: "get_data ?s (Str ''0000000000010011'') = Inr 19" by (simp add: get_data_def bits_eval)
  have h: "get_data ?s (Str ''1000000000000001'') = Inl IndexError"
    by (simp add: get_data_def getitem_def bits_eval)
  have ta: "int (length (data_memory ?s)) \<le> 32769 - 32768" by simp
  have tb: "int (length (data_memory ?s)) \<le> 32773 - 32768" by simp
  have 1: "mov ?s ''1000000000000001'' (Str ''0000000000010011'') = Inr (?s\<lparr>data_memory := data_memory ?s @ [19]\<rparr>)"
    using mov_variable_append [OF a _ _ ta, where ?operand2.0 = "Str ''0000000000010011''"] g by simp
  have 2: "mov ?s ''1000000000000101'' (Str ''0000000000010011'') = Inr (?s\<lparr>data_memory := data_memory ?s @ [19]\<rparr>)"
    using mov_variable_append [OF b _ _ tb, where ?operand2.0 = "Str ''0000000000010011''"] g by simp
  have 3: "mov ?s ''1000000000000001'' (Str ''1000000000000001'') = Inl IndexError"
    using mov_variable_append [OF a _ _ ta, where ?operand2.0 = "Str ''1000000000000001''"] h by simp
  have 4: "add ?s ''1000000000000001'' ''0000000000010011'' = Inl IndexError"
    using mov_variable_append [OF a _ _ ta, where src = "''0000000000010011''"] by simp
  have 5: "div_cpu ?s ''1000000000000101'' ''0000000000010011'' = Inl IndexError"
    using mov_variable_append [OF b _ _ tb, where src = "''0000000000010011''"] by simp
  from 1 2 3 4 5 show ?thesis by simp
qed

text \<open>
  Against C9 as stated: with empty data memory a move to the constant-range
  destination 5 raises IndexError and writes nothing.
\<close>

theorem mov_constant_destination_raises:
  "int2 ''0000000000000101'' = Inr 5 \<and>
   mov \<lparr>prog_memory = [], data_memory = [], ac = 0, ecx = 0, pc = 0, ir = []\<rparr>
       ''0000000000000101'' (Str ''0000000000000011'')
     = Inl IndexError"
  by (simp add: mov_def get_data_def setitem_def bits_eval)

text \<open>
  C9, amended. For a move whose destination value is below 65534 and whose
  source resolves to a value, the destination is treated as the data-memory
  slot at index value - 32768: the value is appended when data memory is
  shorter than index + 1, stored at the index when the index is not negative,
  and for the negative index of a constant-range destination stored at that
  position counted from the end of data memory when data memory is long
  enough, and IndexError is raised otherwise; a constant-range destination
  never appends.
\<close>

theorem mov_destination_below_registers:
  assumes "int2 operand1 = Inr ident" and "ident < 65534" and "get_data s operand2 = Inr v"
  shows "mov s operand1 operand2 =
     (if int (length (data_memory s)) < ident - 32768 + 1 then
        Inr (s\<lparr>data_memory := data_memory s @ [v]\<rparr>)
      else if 32768 \<le> ident then
        Inr (s\<lparr>data_memory := (data_memory s)[nat (ident - 32768) := v]\<rparr>)
      else if 32768 - ident \<le> int (length (data_memory s)) then
        Inr (s\<lparr>data_memory := (data_memory s)[nat (int (length (data_memory s)) + (ident - 32768)) := v]\<rparr>)
      else Inl IndexError) \<and>
     (ident < 32768 \<longrightarrow> \<not> int (length (data_memory s)) < ident - 32768 + 1)"
  using assms by (auto simp: mov_def Let_def setitem_def)

theorem mov_destination_below_registers_witness:
  "mov \<lparr>prog_memory = [], data_memory = [17, 19], ac = 0, ecx = 0, pc = 0, ir = []\<rparr>
       ''0111111111111111'' (Str ''0000000000000011'')
     = Inr \<lparr>prog_memory = [], data_memory = [17, 3], ac = 0, ecx = 0, pc = 0, ir = []\<rparr>"
proof -
  let ?s = "\<lparr>prog_memory = [], data_memory = [17, 19], ac = 0, ecx = 0, pc = 0, ir = []\<rparr>"
  have a: "int2 ''0111111111111111'' = Inr 32767" by (simp add: bits_eval)
  have g: "get_data ?s (Str ''0000000000000011'') = Inr 3" by (simp add: get_data_def bits_eval)
  have lt: "(32767::int) < 65534" by simp
  from mov_destination_below_registers [OF a lt g] show ?thesis by simp
qed

lemma get_data_Num:
  "get_data s (Num r) =
     (if r < 32768 then Inr r
      else if r \<le> 65533 then
        (if r - 32768 < int (length (data_memory s))
         then Inr (data_memory s ! nat (r - 32768)) else Inl IndexError)
      else if r = 65534 then Inr (ac s)
      else Inr (ecx s))"
  by (auto simp: get_data_def getitem_def)

lemma resolved_destination:
  assumes "get_data s (Str operand1) = Inr a"
  shows "\<exists>ident. int2 operand1 = Inr ident \<and> 0 \<le> ident \<and>
           (32768 \<le> ident \<and> ident < 65534 \<longrightarrow> ident - 32768 < int (length (data_memory s)))"
proof (cases "int2 operand1")
  case (Inl e)
  with assms show ?thesis by (simp add: get_data_def)
next
  case (Inr ident)
  with assms have "32768 \<le> ident \<and> ident < 65534 \<longrightarrow> ident - 32768 < int (length (data_memory s))"
    by (auto simp: get_data_def getitem_def split: if_splits)
  with Inr int2_nonneg [OF Inr] show ?thesis by simp
qed

lemma mov_resolved_destination:
  assumes "get_data s (Str operand1) = Inr a" and "int2 operand1 = Inr ident"
    and "get_data s src = Inr w"
  shows "mov s operand1 src =
           (if ident = 65534 then Inr (s\<lparr>ac := w\<rparr>)
            else if 65534 < ident then Inr (s\<lparr>ecx := w\<rparr>)
            else if 32768 \<le> ident then
              Inr (s\<lparr>data_memory := (data_memory s)[nat (ident - 32768) := w]\<rparr>)
            else if 32768 - ident \<le> int (length (data_memory s)) then
              Inr (s\<lparr>data_memory :=
                       (data_memory s)[nat (int (length (data_memory s)) + (ident - 32768)) := w]\<rparr>)
            else Inl IndexError)"
proof -
  from resolved_destination [OF assms(1)] assms(2)
  have "32768 \<le> ident \<and> ident < 65534 \<longrightarrow> ident - 32768 < int (length (data_memory s))"
    by simp
  with assms(2,3) show ?thesis
    by (auto simp: mov_def Let_def setitem_def)
qed

text \<open>
  Against C1 as stated: slot 0 holds 32767 and the instruction adds the
  constant 1 to it. Both operands resolve, to 32767 and 1, yet the slot holds
  32767 afterwards, not 32768: the sum is read again as the address of slot 0.
  And slot 0 holds 7 and the instruction divides it by the constant 2: the
  slot holds 3 afterwards, which is not the quotient of 7 by 2.
\<close>

theorem add_result_reinterpreted:
  "get_data \<lparr>prog_memory = [], data_memory = [32767], ac = 0, ecx = 0, pc = 0,
              ir = ''000110000000000000000000000000000001''\<rparr> (Str ''1000000000000000'') = Inr 32767 \<and>
   get_data \<lparr>prog_memory = [], data_memory = [32767], ac = 0, ecx = 0, pc = 0,
              ir = ''000110000000000000000000000000000001''\<rparr> (Str ''0000000000000001'') = Inr 1 \<and>
   execute \<lparr>prog_memory = [], data_memory = [32767], ac = 0, ecx = 0, pc = 0,
              ir = ''000110000000000000000000000000000001''\<rparr>
     = Inr \<lparr>prog_memory = [], data_memory = [32767], ac = 0, ecx = 0, pc = 1,
              ir = ''000110000000000000000000000000000001''\<rparr> \<and>
   (32767::int) \<noteq> 32767 + 1 \<and>
   get_data \<lparr>prog_memory = [], data_memory = [7], ac = 0, ecx = 0, pc = 0,
              ir = ''010010000000000000000000000000000010''\<rparr> (Str ''1000000000000000'') = Inr 7 \<and>
   get_data \<lparr>prog_memory = [], data_memory = [7], ac = 0, ecx = 0, pc = 0,
              ir = ''010010000000000000000000000000000010''\<rparr> (Str ''0000000000000010'') = Inr 2 \<and>
   execute \<lparr>prog_memory = [], data_memory = [7], ac = 0, ecx = 0, pc = 0,
              ir = ''010010000000000000000000000000000010''\<rparr>
     = Inr \<lparr>prog_memory = [], data_memory = [3], ac = 0, ecx = 0, pc = 1,
              ir = ''010010000000000000000000000000000010''\<rparr> \<and>
   (3::int) * 2 \<noteq> 7"
  by (simp add: execute_def next_pc_def add_def div_cpu_def mov_def get_data_def getitem_def
        setitem_def bits_eval)

text \<open>
  C1, amended. When the two operands of an add, subtract, multiply or divide
  instruction resolve to \<open>a\<close> and \<open>b\<close>, the instruction is the move to the
  same destination whose source is the integer \<open>a + b\<close>, \<open>a - b\<close>, \<open>a * b\<close> or
  the integer quotient of \<open>a\<close> by \<open>b\<close> rounded down (ZeroDivisionError when \<open>b\<close>
  is 0). The move resolves that integer once more: a result below 32768 is
  itself the value written; a result from 32768 to 65533 is replaced by the
  content of the data-memory slot at index result - 32768 (IndexError, and
  nothing written, when there is no such slot); the result 65534 is replaced
  by the accumulator and any larger result by the loop counter. The value goes
  to the accumulator, to the loop counter or to the existing variable slot
  that the destination names; for a constant-range destination it goes to the
  slot at index destination - 32768 counted from the end of data memory, and
  IndexError is raised when data memory is too short for that. For a result
  from 0 to 32767 the move is the one of the constant operand that encodes the
  result.
\<close>

theorem arithmetic_as_move:
  assumes "get_data s (Str operand1) = Inr a" and "get_data s (Str operand2) = Inr b"
  shows "add s operand1 operand2 = mov s operand1 (Num (a + b)) \<and>
         sub s operand1 operand2 = mov s operand1 (Num (a - b)) \<and>
         mul s operand1 operand2 = mov s operand1 (Num (a * b)) \<and>
         div_cpu s operand1 operand2 =
           (if b = 0 then Inl ZeroDivisionError else mov s operand1 (Num (a div b))) \<and>
         (\<forall>r. get_data s (Num r) =
            (if r < 32768 then Inr r
             else if r \<le> 65533 then
               (if r - 32768 < int (length (data_memory s))
                then Inr (data_memory s ! nat (r - 32768)) else Inl IndexError)
             else if r = 65534 then Inr (ac s)
             else Inr (ecx s))) \<and>
         (\<forall>r e. get_data s (Num r) = Inl e \<longrightarrow> mov s operand1 (Num r) = Inl e) \<and>
         (\<exists>ident. int2 operand1 = Inr ident) \<and>
         (\<forall>r w ident. int2 operand1 = Inr ident \<and> get_data s (Num r) = Inr w \<longrightarrow>
            mov s operand1 (Num r) =
              (if ident = 65534 then Inr (s\<lparr>ac := w\<rparr>)
               else if 65534 < ident then Inr (s\<lparr>ecx := w\<rparr>)
               else if 32768 \<le> ident then
                 Inr (s\<lparr>data_memory := (data_memory s)[nat (ident - 32768) := w]\<rparr>)
               else if 32768 - ident \<le> int (length (data_memory s)) then
                 Inr (s\<lparr>data_memory :=
                          (data_memory s)[nat (int (length (data_memory s)) + (ident - 32768)) := w]\<rparr>)
               else Inl IndexError)) \<and>
         (\<forall>r. 0 \<le> r \<and> r < 32768 \<longrightarrow>
            mov s operand1 (Num r) = mov s operand1 (Str (dec_to_bin r 16)))"
proof (intro conjI allI impI)
  show "add s operand1 operand2 = mov s operand1 (Num (a + b))"
    using assms by (simp add: add_def)
  show "sub s operand1 operand2 = mov s operand1 (Num (a - b))"
    using assms by (simp add: sub_def)
  show "mul s operand1 operand2 = mov s operand1 (Num (a * b))"
    using assms by (simp add: mul_def)
  show "div_cpu s operand1 operand2 =
           (if b = 0 then Inl ZeroDivisionError else mov s operand1 (Num (a div b)))"
    using assms by (simp add: div_cpu_def)
  show "\<exists>ident. int2 operand1 = Inr ident"
    using resolved_destination [OF assms(1)] by blast
next
  fix r :: int
  show "get_data s (Num r) =
            (if r < 32768 then Inr r
             else if r \<le> 65533 then
               (if r - 32768 < int (length (data_memory s))
                then Inr (data_memory s ! nat (r - 32768)) else Inl IndexError)
             else if r = 65534 then Inr (ac s)
             else Inr (ecx s))"
    by (rule get_data_Num)
next
  fix r :: int and e assume e: "get_data s (Num r) = Inl e"
  from resolved_destination [OF assms(1)] obtain ident where "int2 operand1 = Inr ident" by blast
  with e show "mov s operand1 (Num r) = Inl e"
    by (simp add: mov_def Let_def)
next
  fix r w ident :: int
  assume "int2 operand1 = Inr ident \<and> get_data s (Num r) = Inr w"
  then show "mov s operand1 (Num r) =
              (if ident = 65534 then Inr (s\<lparr>ac := w\<rparr>)
               else if 65534 < ident then Inr (s\<lparr>ecx := w\<rparr>)
               else if 32768 \<le> ident then
                 Inr (s\<lparr>data_memory := (data_memory s)[nat (ident - 32768) := w]\<rparr>)
               else if 32768 - ident \<le> int (length (data_memory s)) then
                 Inr (s\<lparr>data_memory :=
                          (data_memory s)[nat (int (length (data_memory s)) + (ident - 32768)) := w]\<rparr>)
               else Inl IndexError)"
    using mov_resolved_destination [OF assms(1)] by blast
next
  fix r :: int assume "0 \<le> r \<and> r < 32768"
  then have "get_data s (Num r) = get_data s (Str (dec_to_bin r 16))"
    by (simp add: get_data_Str_dec_to_bin)
  then show "mov s operand1 (Num r) = mov s operand1 (Str (dec_to_bin r 16))"
    by (rule mov_source_cong)
qed

theorem arithmetic_as_move_witness:
  "add \<lparr>prog_memory = [], data_memory = [17], ac = 0, ecx = 0, pc = 0, ir = []\<rparr>
       ''1000000000000000'' ''0000000000000010''
     = Inr \<lparr>prog_memory = [], data_memory = [19], ac = 0, ecx = 0, pc = 0, ir = []\<rparr> \<and>
   div_cpu \<lparr>prog_memory = [], data_memory = [17], ac = 0, ecx = 0, pc = 0, ir = []\<rparr>
       ''1000000000000000'' ''0000000000000010''
     = Inr \<lparr>prog_memory = [], data_memory = [8], ac = 0, ecx = 0, pc = 0, ir = []\<rparr> \<and>
   add \<lparr>prog_memory = [], data_memory = [17], ac = 1, ecx = 0, pc = 0, ir = []\<rparr>
       ''1111111111111110'' ''0111111111111111''
     = Inr \<lparr>prog_memory = [], data_memory = [17], ac = 17, ecx = 0, pc = 0, ir = []\<rparr>"
proof (intro conjI)
  let ?s = "\<lparr>prog_memory = [], data_memory = [17], ac = 0, ecx = 0, pc = 0, ir = []\<rparr>"
  have a: "get_data ?s (Str ''1000000000000000'') = Inr 17"
    by (simp add: get_data_def getitem_def bits_eval)
  have b: "get_data ?s (Str ''0000000000000010'') = Inr 2"
    by (simp add: get_data_def bits_eval)
  have i: "int2 ''1000000000000000'' = Inr 32768" by (simp add: bits_eval)
  note t = arithmetic_as_move [OF a b]
  have g19: "get_data ?s (Num 19) = Inr 19" using t by simp
  have g8: "get_data ?s (Num 8) = Inr 8" using t by simp
  have "add ?s ''1000000000000000'' ''0000000000000010'' = mov ?s ''1000000000000000'' (Num 19)"
    using t by simp
  also have "\<dots> = Inr (?s\<lparr>data_memory := (data_memory ?s)[nat (32768 - 32768) := 19]\<rparr>)"
    using t i g19 by simp
  finally show "add ?s ''1000000000000000'' ''0000000000000010''
     = Inr \<lparr>prog_memory = [], data_memory = [19], ac = 0, ecx = 0, pc = 0, ir = []\<rparr>" by simp
  have "div_cpu ?s ''1000000000000000'' ''0000000000000010'' = mov ?s ''1000000000000000'' (Num 8)"
    using t by simp
  also have "\<dots> = Inr (?s\<lparr>data_memory := (data_memory ?s)[nat (32768 - 32768) := 8]\<rparr>)"
    using t i g8 by simp
  finally show "div_cpu ?s ''1000000000000000'' ''0000000000000010''
     = Inr \<lparr>prog_memory = [], data_memory = [8], ac = 0, ecx = 0, pc = 0, ir = []\<rparr>" by simp
next
  let ?s = "\<lparr>prog_memory = [], data_memory = [17], ac = 1, ecx = 0, pc = 0, ir = []\<rparr>"
  have a: "get_data ?s (Str ''1111111111111110'') = Inr 1"
    by (simp add: get_data_def bits_eval)
  have b: "get_data ?s (Str ''0111111111111111'') = Inr 32767"
    by (simp add: get_data_def bits_eval)
  have i: "int2 ''1111111111111110'' = Inr 65534" by (simp add: bits_eval)
  note t = arithmetic_as_move [OF a b]
  have g: "get_data ?s (Num 32768) = Inr 17" using t by simp
  have "add ?s ''1111111111111110'' ''0111111111111111'' = mov ?s ''1111111111111110'' (Num 32768)"
    using t by simp
  also have "\<dots> = Inr (?s\<lparr>ac := 17\<rparr>)"
    using t i g by simp
  finally show "add ?s ''1111111111111110'' ''0111111111111111''
     = Inr \<lparr>prog_memory = [], data_memory = [17], ac = 17, ecx = 0, pc = 0, ir = []\<rparr>" by simp
qed

section \<open>The encoder\<close>

lemma dec_to_bin_bits: "list_all is_bit (dec_to_bin n 16)"
  using loop_bits [of n] by (auto simp: dec_to_bin_def Let_def list_all_iff is_bit_def)

lemma dec_to_bin_val: "0 \<le> n \<Longrightarrow> bin_val (dec_to_bin n 16) = n"
  using loop_val [of n] by (simp add: dec_to_bin_def Let_def)

lemma dec_to_bin_length: "0 \<le> n \<Longrightarrow> n < 65536 \<Longrightarrow> length (dec_to_bin n 16) = 16"
  using minimal_length [OF loop_minimal, of n 16] by (auto simp: dec_to_bin_def Let_def)

lemma dec_to_bin_zero: "dec_to_bin 0 16 = ''0000000000000000''"
  by code_simp

lemma dec_to_bin_32768: "dec_to_bin 32768 16 = ''1000000000000000''"
  by code_simp

lemma sequential_snoc:
  "sequential (ks @ [v]) = sequential ks @ [(v, 32768 + int (length ks))]"
  by (simp add: sequential_def)

lemma sequential_keys: "map fst (sequential ks) = ks"
  by (simp add: sequential_def)

lemma sequential_values: "map snd (sequential ks) = map (\<lambda>i. 32768 + int i) [0..<length ks]"
  by (simp add: sequential_def)

lemma sequential_Max:
  assumes "ks \<noteq> []"
  shows "Max (set (map snd (sequential ks))) = 32768 + int (length ks) - 1"
proof (rule Max_eqI)
  show "finite (set (map snd (sequential ks)))" by simp
next
  fix y assume "y \<in> set (map snd (sequential ks))"
  then show "y \<le> 32768 + int (length ks) - 1"
    by (auto simp: sequential_values)
next
  from assms have "length ks - 1 < length ks" by (cases ks) simp_all
  then have "32768 + int (length ks - 1) \<in> set (map snd (sequential ks))"
    unfolding sequential_values by (intro image_eqI [where x = "length ks - 1"] | simp)+
  moreover from assms have "int (length ks - 1) = int (length ks) - 1" by (cases ks) simp_all
  ultimately show "32768 + int (length ks) - 1 \<in> set (map snd (sequential ks))" by simp
qed

lemma sequential_Max_image:
  "ks \<noteq> [] \<Longrightarrow> Max (snd ` set (sequential ks)) = 32767 + int (length ks)"
  using sequential_Max [of ks] by simp

lemma map_of_sequential_None: "v \<notin> set ks \<Longrightarrow> map_of (sequential ks) v = None"
  by (simp add: map_of_eq_None_iff sequential_keys flip: set_map)

lemma map_of_sequential_Some: "v \<in> set ks \<Longrightarrow> \<exists>a. map_of (sequential ks) v = Some a"
  using map_of_eq_None_iff [of "sequential ks" v] by (auto simp: sequential_keys simp flip: set_map)

lemma variable_sequential:
  "fst (variable (sequential ks) v) = sequential (if v \<in> set ks then ks else ks @ [v])"
proof (cases "ks = []")
  case True
  then show ?thesis by (simp add: variable_def sequential_def)
next
  case False
  then have len: "length (sequential ks) \<noteq> 0" by (simp add: sequential_def)
  show ?thesis
  proof (cases "v \<in> set ks")
    case True
    from map_of_sequential_Some [OF this] obtain a where "map_of (sequential ks) v = Some a" ..
    with len True show ?thesis by (simp add: variable_def)
  next
    case nin: False
    with len show ?thesis
      by (simp add: variable_def map_of_sequential_None sequential_Max_image [OF False] sequential_snoc Let_def)
  qed
qed

lemma fold_variable_sequential:
  "fold (\<lambda>v t. fst (variable t v)) names (sequential ks) = sequential (first_seen names ks)"
  by (induction names arbitrary: ks) (simp_all add: first_seen_def variable_sequential)

lemma comp_line_variables:
  "comp_line st parts = Inr st' \<Longrightarrow>
   variables st' = fold (\<lambda>v t. fst (variable t v)) (var_tokens parts) (variables st)"
  by (auto simp: comp_line_def var_tokens_def encode_operand1_def encode_operand2_def
           split: list.splits if_splits option.splits sum.splits prod.splits)

lemma comp_lines_variables:
  "comp_lines st ls = Inr st' \<Longrightarrow>
   variables st' = fold (\<lambda>v t. fst (variable t v)) (concat (map var_tokens ls)) (variables st)"
proof (induction ls arbitrary: st)
  case Nil
  then show ?case by simp
next
  case (Cons parts ls)
  from Cons.prems obtain st1 where 1: "comp_line st parts = Inr st1" and 2: "comp_lines st1 ls = Inr st'"
    by (auto split: sum.splits)
  from Cons.IH [OF 2] comp_line_variables [OF 1] show ?case by simp
qed

lemma comp_lines_append:
  "comp_lines st (xs @ ys) =
     (case comp_lines st xs of Inl e \<Rightarrow> Inl e | Inr st' \<Rightarrow> comp_lines st' ys)"
  by (induction xs arbitrary: st) (simp_all split: sum.splits)

lemma comp_line_label:
  "is_label parts \<Longrightarrow> comp_line st parts = Inr (st\<lparr>label := instr_count st\<rparr>)"
  by (auto simp: is_label_def comp_line_def split: list.splits)

lemma startswith_JMP: "\<not> startswith ''JMP'' ''label''"
  by (simp add: startswith_def)

lemma comp_line_JMP:
  "comp_line st (''JMP'' # rest) =
     Inr (st\<lparr>bytecode := bytecode st @ ''0101'' @ dec_to_bin (label st) 16
                           @ ''0000000000000000'' @ [CHR 0x0A],
             instr_count := instr_count st + 1\<rparr>)"
  by (simp add: comp_line_def startswith_JMP operators_def dec_to_bin_zero)

lemma comp_line_counts:
  "comp_line st parts = Inr st' \<Longrightarrow>
     instr_count st' = (if is_label parts then instr_count st else instr_count st + 1) \<and>
     label st' = (if is_label parts then instr_count st else label st)"
  by (auto simp: comp_line_def is_label_def split: list.splits if_splits option.splits prod.splits)

lemma emitted_snoc:
  "emitted (ls @ [parts]) = (if is_label parts then emitted ls else emitted ls + 1)"
  by (simp add: emitted_def)

lemma up_to_last_label_snoc:
  "up_to_last_label (ls @ [parts]) = (if is_label parts then ls @ [parts] else up_to_last_label ls)"
  by (simp add: up_to_last_label_def)

lemma comp_lines_counts:
  "comp_lines comp_init ls = Inr st \<Longrightarrow>
     instr_count st = emitted ls \<and> label st = emitted (up_to_last_label ls)"
proof (induction ls arbitrary: st rule: rev_induct)
  case Nil
  then show ?case by (auto simp: comp_init_def emitted_def up_to_last_label_def)
next
  case (snoc parts ls)
  from snoc.prems obtain st1 where 1: "comp_lines comp_init ls = Inr st1"
    and 2: "comp_line st1 parts = Inr st"
    by (auto simp: comp_lines_append split: sum.splits)
  from snoc.IH [OF 1] comp_line_counts [OF 2] show ?case
    by (simp add: emitted_snoc up_to_last_label_snoc)
qed

lemma comp_lines_nonneg:
  "comp_lines comp_init ls = Inr st \<Longrightarrow> 0 \<le> label st"
  by (drule comp_lines_counts) (simp add: emitted_def)



text \<open>
  C6. The first name that reaches the symbol table is given address 32768;
  a later new name is given the largest address assigned so far plus one; a
  name already in the table keeps its address. Hence after a successful
  encoding the table lists the variable names of the listing in the order of
  their first occurrence with the addresses 32768, 32769, ...: it is a
  function of the listing alone, so encoding the same source again gives the
  same assignments in the same order.
\<close>

theorem variable_addresses_sequential:
  "(comp_lines comp_init ls = Inr st \<longrightarrow>
      variables st = sequential (first_seen (concat (map var_tokens ls)) [])) \<and>
   variable [] v = ([(v, 32768)], ''1000000000000000'') \<and>
   (t \<noteq> [] \<and> map_of t v = None \<longrightarrow>
      variable t v = (t @ [(v, Max (snd ` set t) + 1)], dec_to_bin (Max (snd ` set t) + 1) 16)) \<and>
   (t \<noteq> [] \<and> map_of t v = Some a \<longrightarrow> variable t v = (t, dec_to_bin a 16))"
proof (intro conjI impI)
  assume "comp_lines comp_init ls = Inr st"
  from comp_lines_variables [OF this]
  have "variables st = fold (\<lambda>v t. fst (variable t v)) (concat (map var_tokens ls)) (sequential [])"
    by (simp add: comp_init_def sequential_def)
  then show "variables st = sequential (first_seen (concat (map var_tokens ls)) [])"
    by (simp only: fold_variable_sequential)
next
  show "variable [] v = ([(v, 32768)], ''1000000000000000'')"
    using dec_to_bin_32768 by (simp add: variable_def)
next
  assume "t \<noteq> [] \<and> map_of t v = None"
  then show "variable t v = (t @ [(v, Max (snd ` set t) + 1)], dec_to_bin (Max (snd ` set t) + 1) 16)"
    by (simp add: variable_def Let_def)
next
  assume "t \<noteq> [] \<and> map_of t v = Some a"
  then show "variable t v = (t, dec_to_bin a 16)"
    by (simp add: variable_def)
qed

theorem variable_addresses_sequential_witness:
  "(\<exists>st. comp_lines comp_init
           [[''MOV'', ''x'', ''17''], [''MOV'', ''AC'', ''x''], [''ADD'', ''AC'', ''2''],
            [''MOV'', ''y'', ''AC''], [''MOV'', ''z'', ''x'']] = Inr st \<and>
         variables st = [(''x'', 32768), (''y'', 32769), (''z'', 32770)]) \<and>
   variable [(''x'', 32768), (''y'', 32769)] ''z'' =
     ([(''x'', 32768), (''y'', 32769), (''z'', 32770)], ''1000000000000010'') \<and>
   variable [(''x'', 32768), (''y'', 32769)] ''x'' =
     ([(''x'', 32768), (''y'', 32769)], ''1000000000000000'')"
proof (intro conjI)
  let ?ls = "[[''MOV'', ''x'', ''17''], [''MOV'', ''AC'', ''x''], [''ADD'', ''AC'', ''2''],
            [''MOV'', ''y'', ''AC''], [''MOV'', ''z'', ''x'']]"
  have "\<not> isl (comp_lines comp_init ?ls)" by code_simp
  then obtain st where st: "comp_lines comp_init ?ls = Inr st"
    by (cases "comp_lines comp_init ?ls") simp_all
  with variable_addresses_sequential [of ?ls st]
  have "variables st = sequential (first_seen (concat (map var_tokens ?ls)) [])" by blast
  also have "\<dots> = [(''x'', 32768), (''y'', 32769), (''z'', 32770)]"
    by code_simp
  finally show "\<exists>st. comp_lines comp_init ?ls = Inr st \<and>
         variables st = [(''x'', 32768), (''y'', 32769), (''z'', 32770)]" using st by blast
next
  let ?t = "[(''x'', 32768::int), (''y'', 32769)]"
  have n: "?t \<noteq> [] \<and> map_of ?t ''z'' = None" by simp
  have d: "dec_to_bin 32770 16 = ''1000000000000010''" by code_simp
  from variable_addresses_sequential [of _ _ "''z''" "?t"] n
  have "variable ?t ''z'' = (?t @ [(''z'', Max (snd ` set ?t) + 1)], dec_to_bin (Max (snd ` set ?t) + 1) 16)"
    by blast
  then show "variable ?t ''z'' = ([(''x'', 32768), (''y'', 32769), (''z'', 32770)], ''1000000000000010'')"
    by (simp add: d)
next
  let ?t = "[(''x'', 32768::int), (''y'', 32769)]"
  have n: "?t \<noteq> [] \<and> map_of ?t ''x'' = Some 32768" by simp
  from variable_addresses_sequential [of _ _ "''x''" "?t" 32768] n
  have "variable ?t ''x'' = (?t, dec_to_bin 32768 16)" by blast
  then show "variable ?t ''x'' = (?t, ''1000000000000000'')" by (simp add: dec_to_bin_32768)
qed

text \<open>
  C7. After a successfully encoded listing the instruction counter is the
  number of emitted instructions and the active loop target is the number of
  instructions emitted before the most recent label marker (0 when there was
  none). A further label marker records the current instruction count as the
  target, replacing the earlier one, and emits nothing. A further loop-exit
  line emits the opcode 0101, then the binary text of the active target, then
  sixteen zero bits, and counts as one instruction; the target text is a bit
  string whose value is the target and has 16 characters when the target is
  below 65536.
\<close>

theorem label_and_loop_exit_lines:
  "comp_lines comp_init ls = Inr st \<Longrightarrow>
     instr_count st = emitted ls \<and>
     label st = emitted (up_to_last_label ls) \<and>
     (\<forall>parts. is_label parts \<longrightarrow>
        comp_lines comp_init (ls @ [parts]) = Inr (st\<lparr>label := instr_count st\<rparr>)) \<and>
     (\<forall>rest. comp_lines comp_init (ls @ [''JMP'' # rest]) =
        Inr (st\<lparr>bytecode := bytecode st @ ''0101'' @ dec_to_bin (label st) 16
                              @ ''0000000000000000'' @ [CHR 0x0A],
                instr_count := instr_count st + 1\<rparr>)) \<and>
     list_all is_bit (dec_to_bin (label st) 16) \<and>
     bin_val (dec_to_bin (label st) 16) = label st \<and>
     (label st < 65536 \<longrightarrow> length (dec_to_bin (label st) 16) = 16)"
proof (intro conjI allI impI)
  assume a: "comp_lines comp_init ls = Inr st"
  from comp_lines_counts [OF a] show "instr_count st = emitted ls"
    and "label st = emitted (up_to_last_label ls)" by simp_all
  show "list_all is_bit (dec_to_bin (label st) 16)" by (rule dec_to_bin_bits)
  from comp_lines_nonneg [OF a] show "bin_val (dec_to_bin (label st) 16) = label st"
    by (rule dec_to_bin_val)
next
  fix parts assume a: "comp_lines comp_init ls = Inr st" and "is_label parts"
  then show "comp_lines comp_init (ls @ [parts]) = Inr (st\<lparr>label := instr_count st\<rparr>)"
    by (simp add: comp_lines_append comp_line_label)
next
  fix rest assume a: "comp_lines comp_init ls = Inr st"
  then show "comp_lines comp_init (ls @ [''JMP'' # rest]) =
        Inr (st\<lparr>bytecode := bytecode st @ ''0101'' @ dec_to_bin (label st) 16
                              @ ''0000000000000000'' @ [CHR 0x0A],
                instr_count := instr_count st + 1\<rparr>)"
    by (simp add: comp_lines_append comp_line_JMP)
next
  assume a: "comp_lines comp_init ls = Inr st" and "label st < 65536"
  with comp_lines_nonneg [OF a] show "length (dec_to_bin (label st) 16) = 16"
    by (simp add: dec_to_bin_length)
qed

theorem label_and_loop_exit_lines_witness:
  "comp_lines comp_init [[''MOV'', ''x'', ''17''], [''label0:''], [''label1:''], [''JMP'']] =
     Inr \<lparr>bytecode = ''000010000000000000000000000000010001'' @ [CHR 0x0A] @
                       ''010100000000000000010000000000000000'' @ [CHR 0x0A],
          instr_count = 2, label = 1, variables = [(''x'', 32768)]\<rparr>"
proof -
  let ?ls = "[[''MOV'', ''x'', ''17''], [''label0:''], [''label1:'']]"
  let ?st = "\<lparr>bytecode = ''000010000000000000000000000000010001'' @ [CHR 0x0A],
              instr_count = 1, label = 1, variables = [(''x'', 32768)]\<rparr>"
  have st: "comp_lines comp_init ?ls = Inr ?st" by code_simp
  have d: "dec_to_bin 1 16 = ''0000000000000001''" by code_simp
  from label_and_loop_exit_lines [OF st]
  have "comp_lines comp_init (?ls @ [''JMP'' # []]) =
        Inr (?st\<lparr>bytecode := bytecode ?st @ ''0101'' @ dec_to_bin (label ?st) 16
                              @ ''0000000000000000'' @ [CHR 0x0A],
                instr_count := instr_count ?st + 1\<rparr>)"
    by blast
  then show ?thesis by (simp add: d)
qed

lemma line_fails_error: "line_fails parts = (line_error parts \<noteq> None)"
  by (auto simp: line_fails_def line_error_def split: list.splits)








end
